theory Spec2Isabelle
  imports
    Main
    "HOL-Library.Sublist"
    "HOL-Library.Char_ord"
    "HOL-Library.List_Lexorder"
begin

section \<open>Data model\<close>

text \<open>
  A job posting is one element of the \<^verbatim>\<open>jobs\<close> array of the fetched document. The
  source reads the keys \<^verbatim>\<open>id\<close>, \<^verbatim>\<open>title\<close>, \<^verbatim>\<open>company\<close>, \<^verbatim>\<open>location\<close>,
  \<^verbatim>\<open>remote\<close>, \<^verbatim>\<open>visa_sponsorship\<close>, \<^verbatim>\<open>experience_level\<close> and \<^verbatim>\<open>tech_stack\<close>;
  the record has exactly these fields with the types of the data model (the key
  \<^verbatim>\<open>id\<close> is the field \<open>job_id\<close>, since \<open>id\<close> is the identity function of HOL).
  A string of Python is a sequence of code points; here it is the list of bytes
  that writes each code point in the UTF-8 scheme. Equality, concatenation, the
  containment test \<^verbatim>\<open>a in b\<close> and the order that \<^verbatim>\<open>sort\<close> uses are the same on
  both views: the bytes of one code point never begin inside those of another, and
  the order of the bytes is the order of the code points.
\<close>

record job =
  job_id :: string
  title :: string
  company :: string
  location :: string
  remote :: bool
  visa_sponsorship :: bool
  experience_level :: string
  tech_stack :: "string list"

text \<open>
  The argument dictionary of a tool call. A key that is absent is \<open>None\<close>; the
  value types are those of the tool's input schema.
\<close>

record arguments =
  arg_query :: "string option"
  arg_location :: "string option"
  arg_remote :: "bool option"
  arg_visa_sponsorship :: "bool option"
  arg_experience_level :: "string option"
  arg_job_id :: "string option"

definition no_arguments :: arguments where
  "no_arguments =
     \<lparr>arg_query = None, arg_location = None, arg_remote = None,
      arg_visa_sponsorship = None, arg_experience_level = None, arg_job_id = None\<rparr>"

text \<open>
  What a tool hands back: the dictionary that the source passes to
  \<^verbatim>\<open>json.dumps\<close>, one constructor for each shape, and the text content that carries
  either such a serialised dictionary or a literal message.
\<close>

datatype payload =
    SearchResult (total_results: nat) (jobs: "job list")
  | JobDetails job
  | AllJobs (total_jobs: nat) (jobs: "job list")
  | Companies (total_companies: nat) (companies: "string list")
  | Technologies (total_technologies: nat) (technologies: "string list")

datatype text_content =
    Dumps payload     \<comment> \<open>\<^verbatim>\<open>TextContent(type="text", text=json.dumps(result, indent=2))\<close>\<close>
  | Literal string    \<comment> \<open>\<^verbatim>\<open>TextContent(type="text", text=<message>)\<close>\<close>

datatype error =
    ValueError string
  | RequestException     \<comment> \<open>\<^verbatim>\<open>requests.get\<close> raised: no connection, timeout\<close>
  | HTTPError nat        \<comment> \<open>\<^verbatim>\<open>raise_for_status\<close> raised on this status code\<close>
  | JSONDecodeError      \<comment> \<open>the text is not a JSON document\<close>
  | AttributeError       \<comment> \<open>\<^verbatim>\<open>.get\<close> on a JSON value that is not an object\<close>
  | IndexError           \<comment> \<open>\<^verbatim>\<open>result[0]\<close> on an empty list\<close>

section \<open>Strings\<close>

text \<open>
  \<^verbatim>\<open>str.lower\<close> is a builtin of Python that follows the Unicode tables and looks at
  the context of a character (the final sigma); it is not code of the repository.
  Every function that lower-cases takes it as the parameter \<open>lower\<close>, and each
  theorem states what it needs of \<open>lower\<close>. Three properties are used, and
  \<^verbatim>\<open>str.lower\<close> has them:
  \<^item> \<open>lower s = []\<close> exactly when \<open>s = []\<close>: every character has a non-empty
    lower case;
  \<^item> \<open>lower (a @ '' '' @ b) = lower a @ '' '' @ lower b\<close>: a space lower-cases
    to itself, and it is neither a cased letter nor ignored when the context of a
    sigma is looked up, so the texts on its two sides are lower-cased on their own;
  \<^item> \<open>lower s\<close> contains a space exactly when \<open>s\<close> does: no lower case of a
    character contains a space.

  The properties are asked of every list of bytes; on a list that writes no
  string, \<open>lower\<close> is free within them.

  On ASCII text \<^verbatim>\<open>str.lower\<close> is \<open>ascii_lower\<close>: the letters A to Z go to a to z,
  every other character stays. The scenarios, whose texts are ASCII, are evaluated
  with it.
\<close>

definition ascii_lower_char :: "char \<Rightarrow> char" where
  "ascii_lower_char c =
     (if CHR ''A'' \<le> c \<and> c \<le> CHR ''Z'' then char_of (of_char c + (32::nat)) else c)"

definition ascii_lower :: "string \<Rightarrow> string" where
  "ascii_lower s = map ascii_lower_char s"

definition is_ascii :: "string \<Rightarrow> bool" where
  "is_ascii s = list_all (\<lambda>c. c < CHR 0x80) s"

text \<open>\<^verbatim>\<open>sep.join(xs)\<close>.\<close>

fun join :: "string \<Rightarrow> string list \<Rightarrow> string" where
  "join sep [] = []"
| "join sep [x] = x"
| "join sep (x # y # ys) = x @ sep @ join sep (y # ys)"

text \<open>
  Python's \<^verbatim>\<open>a in b\<close> on strings is \<^const>\<open>sublist\<close>: \<open>b\<close> is \<open>ps @ a @ ss\<close> for some
  \<open>ps\<close> and \<open>ss\<close>.
\<close>

section \<open>The query engine\<close>

text \<open>
  \<^verbatim>\<open>f"{job['title']} {job['company']} {job['location']} {' '.join(job['tech_stack'])}".lower()\<close>
\<close>

definition searchable_text :: "(string \<Rightarrow> string) \<Rightarrow> job \<Rightarrow> string" where
  "searchable_text lower j =
     lower (title j @ '' '' @ company j @ '' '' @ location j @ '' '' @ join '' '' (tech_stack j))"

text \<open>
  The loop of \<^verbatim>\<open>_search_jobs\<close> over \<^verbatim>\<open>self.jobs_data\<close>: each \<^verbatim>\<open>continue\<close> goes on
  with the remaining jobs and leaves \<^verbatim>\<open>filtered_jobs\<close> as it is; a job that passes
  every test is appended.
\<close>

fun search_loop ::
  "(string \<Rightarrow> string) \<Rightarrow> string \<Rightarrow> string \<Rightarrow> bool option \<Rightarrow> bool option \<Rightarrow> string \<Rightarrow> job list \<Rightarrow> job list \<Rightarrow> job list"
where
  "search_loop lower query location_filter remote_filter visa_filter experience_filter [] filtered_jobs =
     filtered_jobs"
| "search_loop lower query location_filter remote_filter visa_filter experience_filter (j # rest) filtered_jobs =
     (if query \<noteq> [] \<and> \<not> sublist query (searchable_text lower j) then
        search_loop lower query location_filter remote_filter visa_filter experience_filter rest filtered_jobs
      else if location_filter \<noteq> [] \<and> \<not> sublist location_filter (lower (location j)) then
        search_loop lower query location_filter remote_filter visa_filter experience_filter rest filtered_jobs
      else if remote_filter \<noteq> None \<and> Some (remote j) \<noteq> remote_filter then
        search_loop lower query location_filter remote_filter visa_filter experience_filter rest filtered_jobs
      else if visa_filter \<noteq> None \<and> Some (visa_sponsorship j) \<noteq> visa_filter then
        search_loop lower query location_filter remote_filter visa_filter experience_filter rest filtered_jobs
      else if experience_filter \<noteq> [] \<and> \<not> sublist experience_filter (lower (experience_level j)) then
        search_loop lower query location_filter remote_filter visa_filter experience_filter rest filtered_jobs
      else
        search_loop lower query location_filter remote_filter visa_filter experience_filter rest
          (filtered_jobs @ [j]))"

text \<open>\<^verbatim>\<open>arguments.get(key, "")\<close>.\<close>

definition get_str :: "string option \<Rightarrow> string" where
  "get_str v = (case v of None \<Rightarrow> [] | Some s \<Rightarrow> s)"

definition search_jobs ::
  "(string \<Rightarrow> string) \<Rightarrow> job list \<Rightarrow> arguments \<Rightarrow> text_content list"
where
  "search_jobs lower jobs_data args =
     (let query = lower (get_str (arg_query args));
          location_filter = lower (get_str (arg_location args));
          remote_filter = arg_remote args;
          visa_filter = arg_visa_sponsorship args;
          experience_filter = lower (get_str (arg_experience_level args));
          filtered_jobs =
            search_loop lower query location_filter remote_filter visa_filter experience_filter
              jobs_data []
      in [Dumps (SearchResult (length filtered_jobs) filtered_jobs)])"

text \<open>
  \<^verbatim>\<open>_get_job_details\<close>. \<^verbatim>\<open>not job_id\<close> holds for an absent key and for the empty
  string. \<^verbatim>\<open>next((j for j in self.jobs_data if j["id"] == job_id), None)\<close> is
  \<^const>\<open>find\<close>; a record is a non-empty dictionary, so \<^verbatim>\<open>not job\<close> holds exactly when
  nothing was found.
\<close>

definition not_found_text :: "string \<Rightarrow> string" where
  "not_found_text jid = ''Job with ID '' @ [CHR 0x27] @ jid @ [CHR 0x27] @ '' not found''"

definition get_job_details :: "job list \<Rightarrow> arguments \<Rightarrow> error + text_content list" where
  "get_job_details jobs_data args =
     (case arg_job_id args of
        None \<Rightarrow> Inl (ValueError ''job_id is required'')
      | Some jid \<Rightarrow>
          (if jid = [] then Inl (ValueError ''job_id is required'')
           else
             (case find (\<lambda>j. job_id j = jid) jobs_data of
                None \<Rightarrow> Inr [Literal (not_found_text jid)]
              | Some j \<Rightarrow> Inr [Dumps (JobDetails j)])))"

definition list_all_jobs :: "job list \<Rightarrow> text_content list" where
  "list_all_jobs jobs_data = [Dumps (AllJobs (length jobs_data) jobs_data)]"

text \<open>
  \<^verbatim>\<open>_get_companies\<close>: \<^verbatim>\<open>list(set(...))\<close> followed by \<^verbatim>\<open>sort()\<close>. Python compares
  strings code point by code point, which on the bytes is the lexicographic order
  on \<open>char list\<close>.
\<close>

definition get_companies :: "job list \<Rightarrow> text_content list" where
  "get_companies jobs_data =
     (let companies = sorted_list_of_set (set (map company jobs_data))
      in [Dumps (Companies (length companies) companies)])"

text \<open>
  \<^verbatim>\<open>_get_tech_stacks\<close>: the loop adds every \<^verbatim>\<open>tech_stack\<close> to the set
  \<^verbatim>\<open>all_techs\<close>, which is then sorted.
\<close>

definition get_tech_stacks :: "job list \<Rightarrow> text_content list" where
  "get_tech_stacks jobs_data =
     (let all_techs = fold (\<lambda>j acc. acc \<union> set (tech_stack j)) jobs_data {};
          techs = sorted_list_of_set all_techs
      in [Dumps (Technologies (length techs) techs)])"

section \<open>The job store and its load\<close>

text \<open>
  \<open>jobs_data\<close> is the attribute \<^verbatim>\<open>self.jobs_data\<close>. \<open>fetch_count\<close> is not in the
  source: it counts the calls of \<^verbatim>\<open>requests.get\<close> made so far, so that statements
  about whether a fetch happens can be written down.
\<close>

record server =
  jobs_data :: "job list"
  fetch_count :: nat

definition new_server :: server where
  "new_server = \<lparr>jobs_data = [], fetch_count = 0\<rparr>"

text \<open>
  What the remote source does when asked. The request raises (no connection,
  timeout), or a response comes back with a status code and a body. The body is not
  JSON at all, or JSON whose top level is not an object, or a JSON object; of an
  object only the value under the key \<^verbatim>\<open>jobs\<close> matters, \<open>None\<close> when the key is
  absent.
\<close>

datatype json_body =
    InvalidJson
  | NonObject
  | Object "job list option"

datatype fetch_outcome =
    NoResponse
  | Response nat json_body

text \<open>\<^verbatim>\<open>response.raise_for_status()\<close> raises on the client and server error codes.\<close>

definition raise_for_status :: "nat \<Rightarrow> error option" where
  "raise_for_status status_code =
     (if 400 \<le> status_code \<and> status_code < 600 then Some (HTTPError status_code) else None)"

text \<open>
  \<^verbatim>\<open>_load_jobs_data\<close>. The first component is the exception that leaves the
  function, \<open>None\<close> when it returns normally; the handler of the source logs and
  re-raises, so every exception of the \<^verbatim>\<open>try\<close> block leaves. The assignment to
  \<^verbatim>\<open>self.jobs_data\<close> is the last statement that can change the state.
\<close>

definition load_jobs_data :: "fetch_outcome \<Rightarrow> server \<Rightarrow> error option \<times> server" where
  "load_jobs_data outcome s =
     (if jobs_data s = [] then
        (let s' = s\<lparr>fetch_count := fetch_count s + 1\<rparr> in
         case outcome of
           NoResponse \<Rightarrow> (Some RequestException, s')
         | Response status_code body \<Rightarrow>
             (case raise_for_status status_code of
                Some e \<Rightarrow> (Some e, s')
              | None \<Rightarrow>
                  (case body of
                     InvalidJson \<Rightarrow> (Some JSONDecodeError, s')
                   | NonObject \<Rightarrow> (Some AttributeError, s')
                   | Object v \<Rightarrow>
                       (None, s'\<lparr>jobs_data := (case v of None \<Rightarrow> [] | Some js \<Rightarrow> js)\<rparr>))))
      else (None, s))"

section \<open>The tool dispatcher\<close>

text \<open>
  \<^verbatim>\<open>handle_call_tool\<close>: the load comes first, whatever the tool; an exception of
  the load leaves the handler. \<^verbatim>\<open>arguments or {}\<close> is the empty dictionary for
  \<open>None\<close>.
\<close>

definition handle_call_tool ::
  "(string \<Rightarrow> string) \<Rightarrow> fetch_outcome \<Rightarrow> string \<Rightarrow> arguments option \<Rightarrow> server \<Rightarrow> (error + text_content list) \<times> server"
where
  "handle_call_tool lower outcome name args s =
     (case load_jobs_data outcome s of
        (Some e, s') \<Rightarrow> (Inl e, s')
      | (None, s') \<Rightarrow>
          (let a = (case args of None \<Rightarrow> no_arguments | Some d \<Rightarrow> d) in
           (if name = ''search_jobs'' then Inr (search_jobs lower (jobs_data s') a)
            else if name = ''get_job_details'' then get_job_details (jobs_data s') a
            else if name = ''list_all_jobs'' then Inr (list_all_jobs (jobs_data s'))
            else if name = ''get_companies'' then Inr (get_companies (jobs_data s'))
            else if name = ''get_tech_stacks'' then Inr (get_tech_stacks (jobs_data s'))
            else Inl (ValueError (''Unknown tool: '' @ name)),
            s')))"

section \<open>The HTTP adapter\<close>

text \<open>
  \<^verbatim>\<open>json.loads\<close> of a text content. On the output of \<^verbatim>\<open>json.dumps\<close> it gives the
  dictionary back. On any other text it skips leading whitespace and looks at the
  next character: unless that character can begin a JSON value, decoding fails at
  once. What the decoder does with a text that passes this test is the parameter
  \<open>decoder\<close>.
\<close>

definition json_whitespace :: string where
  "json_whitespace = [CHR '' '', CHR 0x09, CHR 0x0A, CHR 0x0D]"

definition json_value_start :: string where
  "json_value_start = CHR 0x22 # ''{[-0123456789tfnNI''"

definition json_loads :: "(string \<Rightarrow> error + payload) \<Rightarrow> text_content \<Rightarrow> error + payload" where
  "json_loads decoder t =
     (case t of
        Dumps p \<Rightarrow> Inr p
      | Literal s \<Rightarrow>
          (case dropWhile (\<lambda>c. c \<in> set json_whitespace) s of
             [] \<Rightarrow> Inl JSONDecodeError
           | c # _ \<Rightarrow> if c \<in> set json_value_start then decoder s else Inl JSONDecodeError))"

text \<open>
  A route handler returns a dictionary, or raises \<^verbatim>\<open>HTTPException\<close> with a status
  code; \<^verbatim>\<open>detail=str(e)\<close> is kept as the exception \<open>e\<close> itself.
\<close>

datatype http_result =
    Returned payload
  | HTTPException nat error

text \<open>
  \<^verbatim>\<open>get_job\<close> of the web server: every exception of the \<^verbatim>\<open>try\<close> block becomes
  status 500.
\<close>

definition get_job :: "(string \<Rightarrow> error + payload) \<Rightarrow> job list \<Rightarrow> string \<Rightarrow> http_result" where
  "get_job decoder store jid =
     (case get_job_details store (no_arguments\<lparr>arg_job_id := Some jid\<rparr>) of
        Inl e \<Rightarrow> HTTPException 500 e
      | Inr result \<Rightarrow>
          (case result of
             [] \<Rightarrow> HTTPException 500 IndexError
           | t # _ \<Rightarrow>
               (case json_loads decoder t of
                  Inl e \<Rightarrow> HTTPException 500 e
                | Inr p \<Rightarrow> Returned p)))"

section \<open>The filters as the specification words them\<close>

text \<open>
  A string filter that is absent or empty imposes nothing. Otherwise the text has
  to contain the filter without regard to case: the lower-cased filter occurs in
  the lower-cased text.
\<close>

definition text_filter_ok :: "(string \<Rightarrow> string) \<Rightarrow> string option \<Rightarrow> string \<Rightarrow> bool" where
  "text_filter_ok lower f field_text =
     (case f of
        None \<Rightarrow> True
      | Some s \<Rightarrow> (if s = [] then True else sublist (lower s) (lower field_text)))"

text \<open>A boolean filter that is absent imposes nothing; otherwise the field equals it.\<close>

definition bool_filter_ok :: "bool option \<Rightarrow> bool \<Rightarrow> bool" where
  "bool_filter_ok f b = (case f of None \<Rightarrow> True | Some v \<Rightarrow> b = v)"

text \<open>
  The query is matched against title, company, location and the space-joined
  technology list, concatenated with single spaces.
\<close>

definition satisfies :: "(string \<Rightarrow> string) \<Rightarrow> arguments \<Rightarrow> job \<Rightarrow> bool" where
  "satisfies lower args j \<longleftrightarrow>
     text_filter_ok lower (arg_query args)
       (title j @ '' '' @ company j @ '' '' @ location j @ '' '' @ join '' '' (tech_stack j)) \<and>
     text_filter_ok lower (arg_location args) (location j) \<and>
     bool_filter_ok (arg_remote args) (remote j) \<and>
     bool_filter_ok (arg_visa_sponsorship args) (visa_sponsorship j) \<and>
     text_filter_ok lower (arg_experience_level args) (experience_level j)"

section \<open>Scenario data\<close>

definition job1 :: job where
  "job1 =
     \<lparr>job_id = ''1'', title = ''Backend Engineer'', company = ''Acme'', location = ''Remote'',
      remote = True, visa_sponsorship = False, experience_level = ''Senior'',
      tech_stack = [''Go'', ''Postgres'']\<rparr>"

text \<open>A second posting that shares the technology \<open>Go\<close> with the first.\<close>

definition job2 :: job where
  "job2 =
     \<lparr>job_id = ''job-1'', title = ''Frontend Engineer'', company = ''Globex'',
      location = ''Berlin'', remote = False, visa_sponsorship = True,
      experience_level = ''Mid'', tech_stack = [''TypeScript'', ''Go'']\<rparr>"

section \<open>Properties of search\<close>

subsection \<open>ASCII lower-casing has the three properties\<close>

lemma ascii_lower_Nil_iff: "ascii_lower s = [] \<longleftrightarrow> s = []"
  by (simp add: ascii_lower_def)

lemma ascii_lower_char_space: "ascii_lower_char c = CHR '' '' \<longleftrightarrow> c = CHR '' ''"
proof (cases "CHR ''A'' \<le> c \<and> c \<le> CHR ''Z''")
  case True
  then have b: "65 \<le> (of_char c :: nat)" "(of_char c :: nat) \<le> 90"
    by (simp_all add: less_eq_char_def)
  have e: "(of_char (char_of (of_char c + (32::nat))) :: nat) = of_char c + 32"
    using b by simp
  have "char_of (of_char c + (32::nat)) \<noteq> CHR '' ''"
  proof
    assume "char_of (of_char c + (32::nat)) = CHR '' ''"
    then have "(of_char (char_of (of_char c + (32::nat))) :: nat) = of_char (CHR '' '')"
      by simp
    then show False using e b by simp
  qed
  moreover have "c \<noteq> CHR '' ''" using True by auto
  ultimately show ?thesis using True by (simp add: ascii_lower_char_def)
next
  case False
  then show ?thesis by (auto simp add: ascii_lower_char_def)
qed

lemma ascii_lower_char_space_id: "ascii_lower_char CHR '' '' = CHR '' ''"
  by (simp add: ascii_lower_char_space)

lemma ascii_lower_sep:
  "ascii_lower (a @ '' '' @ b) = ascii_lower a @ '' '' @ ascii_lower b"
  by (simp add: ascii_lower_def ascii_lower_char_space_id)

lemma space_in_ascii_lower: "CHR '' '' \<in> set (ascii_lower q) \<longleftrightarrow> CHR '' '' \<in> set q"
proof
  assume "CHR '' '' \<in> set (ascii_lower q)"
  then obtain c where "c \<in> set q" "ascii_lower_char c = CHR '' ''"
    by (auto simp: ascii_lower_def)
  then show "CHR '' '' \<in> set q" by (simp add: ascii_lower_char_space)
next
  assume "CHR '' '' \<in> set q"
  then show "CHR '' '' \<in> set (ascii_lower q)"
    using ascii_lower_char_space_id by (force simp: ascii_lower_def image_iff)
qed

subsection \<open>The loop is a filter\<close>

lemma search_loop_filter:
  assumes nonempty: "\<And>s. lower s = [] \<longleftrightarrow> s = []"
  shows "search_loop lower (lower (get_str (arg_query args))) (lower (get_str (arg_location args)))
     (arg_remote args) (arg_visa_sponsorship args) (lower (get_str (arg_experience_level args)))
     js acc
   = acc @ filter (satisfies lower args) js"
proof (induction js arbitrary: acc)
  case Nil
  show ?case by simp
next
  case (Cons j js)
  have q: "(lower (get_str (arg_query args)) \<noteq> [] \<and>
            \<not> sublist (lower (get_str (arg_query args))) (searchable_text lower j))
           \<longleftrightarrow> \<not> text_filter_ok lower (arg_query args)
                 (title j @ '' '' @ company j @ '' '' @ location j @ '' '' @ join '' '' (tech_stack j))"
    by (simp add: text_filter_ok_def get_str_def searchable_text_def nonempty
        split: option.splits)
  have l: "(lower (get_str (arg_location args)) \<noteq> [] \<and>
            \<not> sublist (lower (get_str (arg_location args))) (lower (location j)))
           \<longleftrightarrow> \<not> text_filter_ok lower (arg_location args) (location j)"
    by (simp add: text_filter_ok_def get_str_def nonempty split: option.splits)
  have e: "(lower (get_str (arg_experience_level args)) \<noteq> [] \<and>
            \<not> sublist (lower (get_str (arg_experience_level args))) (lower (experience_level j)))
           \<longleftrightarrow> \<not> text_filter_ok lower (arg_experience_level args) (experience_level j)"
    by (simp add: text_filter_ok_def get_str_def nonempty split: option.splits)
  have r: "(arg_remote args \<noteq> None \<and> Some (remote j) \<noteq> arg_remote args)
           \<longleftrightarrow> \<not> bool_filter_ok (arg_remote args) (remote j)"
    by (auto simp add: bool_filter_ok_def split: option.splits)
  have v: "(arg_visa_sponsorship args \<noteq> None \<and> Some (visa_sponsorship j) \<noteq> arg_visa_sponsorship args)
           \<longleftrightarrow> \<not> bool_filter_ok (arg_visa_sponsorship args) (visa_sponsorship j)"
    by (auto simp add: bool_filter_ok_def split: option.splits)
  show ?case
    unfolding search_loop.simps q l e r v
    by (simp add: Cons.IH satisfies_def)
qed




subsection \<open>Joining and containment\<close>

lemma sublist_sep:
  assumes "sep \<notin> set q" and "sublist q (a @ sep # b)"
  shows "sublist q a \<or> sublist q b"
proof -
  from assms(2) consider "sublist q a" | "sublist q (sep # b)"
    | xs1 xs2 where "q = xs1 @ xs2" "suffix xs1 a" "prefix xs2 (sep # b)"
    by (auto simp: sublist_append)
  then show ?thesis
  proof cases
    case 1
    then show ?thesis by simp
  next
    case 2
    then have "prefix q (sep # b) \<or> sublist q b" by (simp add: sublist_Cons_right)
    then show ?thesis
    proof
      assume "prefix q (sep # b)"
      then have "q = []" using assms(1) by (cases q) auto
      then show ?thesis by simp
    qed simp
  next
    case 3
    from 3(3) assms(1) 3(1) have "xs2 = []" by (cases xs2) auto
    with 3 show ?thesis by auto
  qed
qed

lemma sublist_join:
  assumes "CHR '' '' \<notin> set q" and "q \<noteq> []"
  shows "sublist q (join '' '' ts) \<Longrightarrow> \<exists>t\<in>set ts. sublist q t"
proof (induction ts rule: induct_list012)
  case 1
  then show ?case using assms(2) by simp
next
  case (2 x)
  then show ?case by simp
next
  case (3 x y ys)
  from 3(3) have "sublist q (x @ CHR '' '' # join '' '' (y # ys))" by simp
  then have "sublist q x \<or> sublist q (join '' '' (y # ys))"
    by (rule sublist_sep[OF assms(1)])
  then show ?case using 3(2) by auto
qed

lemma lower_join:
  assumes nonempty: "\<And>s. lower s = [] \<longleftrightarrow> s = []"
    and sep: "\<And>a b. lower (a @ '' '' @ b) = lower a @ '' '' @ lower b"
  shows "lower (join '' '' ts) = join '' '' (map lower ts)"
proof (induction ts rule: induct_list012)
  case 1
  show ?case by (simp add: nonempty)
next
  case (2 x)
  show ?case by simp
next
  case (3 x y ys)
  have "lower (join '' '' (x # y # ys)) = lower (x @ '' '' @ join '' '' (y # ys))" by simp
  also have "\<dots> = lower x @ '' '' @ lower (join '' '' (y # ys))" by (rule sep)
  finally show ?case using 3(2) by simp
qed

lemma sublist_searchable_fields:
  assumes nonempty: "\<And>s. lower s = [] \<longleftrightarrow> s = []"
    and sep: "\<And>a b. lower (a @ '' '' @ b) = lower a @ '' '' @ lower b"
    and sp: "CHR '' '' \<notin> set q" and ne: "q \<noteq> []"
    and sub: "sublist q (searchable_text lower j)"
  shows "\<exists>f\<in>set (title j # company j # location j # tech_stack j). sublist q (lower f)"
proof -
  have "searchable_text lower j =
          lower (title j) @ '' '' @ lower (company j) @ '' '' @ lower (location j) @ '' '' @
            join '' '' (map lower (tech_stack j))"
    unfolding searchable_text_def sep lower_join[OF nonempty sep] by (rule refl)
  then have "searchable_text lower j =
          lower (title j) @ CHR '' '' # (lower (company j) @ CHR '' '' #
            (lower (location j) @ CHR '' '' # join '' '' (map lower (tech_stack j))))"
    by simp
  with sub have "sublist q (lower (title j)) \<or> sublist q (lower (company j) @ CHR '' '' #
            (lower (location j) @ CHR '' '' # join '' '' (map lower (tech_stack j))))"
    using sublist_sep[OF sp] by simp
  then have "sublist q (lower (title j)) \<or> sublist q (lower (company j)) \<or>
      sublist q (lower (location j) @ CHR '' '' # join '' '' (map lower (tech_stack j)))"
    using sublist_sep[OF sp] by blast
  then have "sublist q (lower (title j)) \<or> sublist q (lower (company j)) \<or>
      sublist q (lower (location j)) \<or> sublist q (join '' '' (map lower (tech_stack j)))"
    using sublist_sep[OF sp] by blast
  moreover have "\<exists>t\<in>set (tech_stack j). sublist q (lower t)"
    if "sublist q (join '' '' (map lower (tech_stack j)))"
    using sublist_join[OF sp ne that] by auto
  ultimately show ?thesis by auto
qed

lemma search_jobs_result:
  assumes "\<And>s. lower s = [] \<longleftrightarrow> s = []"
  shows "search_jobs lower store args = [Dumps (SearchResult n js)] \<Longrightarrow>
         js = filter (satisfies lower args) store"
  by (simp add: search_jobs_def Let_def search_loop_filter[OF assms])

text \<open>
  C1, as amended. Let \<open>lower\<close> give the empty string on the empty string only.
  With a non-empty query, every record of the result has the lower-cased query
  inside its searchable text, the lower-cased join of title, company, location and
  technologies with single spaces. When moreover \<open>lower\<close> works on the two sides
  of a space on their own and neither makes nor removes spaces, and the query
  contains no space, the lower-cased query lies inside the lower case of one of
  title, company, location or one technology.
\<close>

theorem search_query_match:
  assumes "\<And>s. lower s = [] \<longleftrightarrow> s = []"
    and "arg_query args = Some q" and "q \<noteq> []"
    and "search_jobs lower store args = [Dumps (SearchResult n js)]" and "j \<in> set js"
  shows "sublist (lower q) (searchable_text lower j) \<and>
         ((\<forall>a b. lower (a @ '' '' @ b) = lower a @ '' '' @ lower b) \<and>
          (\<forall>s. (CHR '' '' \<in> set (lower s)) = (CHR '' '' \<in> set s)) \<and>
          CHR '' '' \<notin> set q \<longrightarrow>
            (\<exists>f\<in>set (title j # company j # location j # tech_stack j).
               sublist (lower q) (lower f)))"
proof -
  have "satisfies lower args j"
    using search_jobs_result[OF assms(1,4)] assms(5) by simp
  with assms(2,3) have m: "sublist (lower q) (searchable_text lower j)"
    by (simp add: satisfies_def text_filter_ok_def searchable_text_def)
  moreover have "\<exists>f\<in>set (title j # company j # location j # tech_stack j).
               sublist (lower q) (lower f)"
    if sep: "\<forall>a b. lower (a @ '' '' @ b) = lower a @ '' '' @ lower b"
      and spc: "\<forall>s. (CHR '' '' \<in> set (lower s)) = (CHR '' '' \<in> set s)"
      and nq: "CHR '' '' \<notin> set q"
  proof (rule sublist_searchable_fields)
    show "lower s = [] \<longleftrightarrow> s = []" for s by (rule assms(1))
    show "lower (a @ '' '' @ b) = lower a @ '' '' @ lower b" for a b using sep by blast
    show "CHR '' '' \<notin> set (lower q)" using nq spc by blast
    show "lower q \<noteq> []" using assms(3) by (simp add: assms(1))
    show "sublist (lower q) (searchable_text lower j)" by (rule m)
  qed
  ultimately show ?thesis by blast
qed

lemma scenario_a_acme:
  "search_jobs ascii_lower [job1] (no_arguments\<lparr>arg_query := Some ''acme''\<rparr>)
     = [Dumps (SearchResult 1 [job1])]"
  by code_simp

theorem search_query_match_witness:
  "(\<forall>s. (ascii_lower s = []) = (s = []))
   \<and> (\<forall>a b. ascii_lower (a @ '' '' @ b) = ascii_lower a @ '' '' @ ascii_lower b)
   \<and> (\<forall>s. (CHR '' '' \<in> set (ascii_lower s)) = (CHR '' '' \<in> set s))
   \<and> search_jobs ascii_lower [job1] (no_arguments\<lparr>arg_query := Some ''acme''\<rparr>)
       = [Dumps (SearchResult 1 [job1])]
   \<and> sublist (ascii_lower ''acme'') (searchable_text ascii_lower job1)
   \<and> (\<exists>f\<in>set (title job1 # company job1 # location job1 # tech_stack job1).
         sublist (ascii_lower ''acme'') (ascii_lower f))"
proof -
  have a: "arg_query (no_arguments\<lparr>arg_query := Some ''acme''\<rparr>) = Some ''acme''" by simp
  have b: "''acme'' \<noteq> []" by simp
  have c: "job1 \<in> set [job1]" by simp
  have d: "CHR '' '' \<notin> set ''acme''" by simp
  have h1: "\<forall>s. (ascii_lower s = []) = (s = [])" by (simp add: ascii_lower_Nil_iff)
  have h2: "\<forall>a b. ascii_lower (a @ '' '' @ b) = ascii_lower a @ '' '' @ ascii_lower b"
    using ascii_lower_sep by blast
  have h3: "\<forall>s. (CHR '' '' \<in> set (ascii_lower s)) = (CHR '' '' \<in> set s)"
    by (simp add: space_in_ascii_lower)
  from search_query_match[OF ascii_lower_Nil_iff a b scenario_a_acme c] h2 h3 d
  have "sublist (ascii_lower ''acme'') (searchable_text ascii_lower job1)"
    and "\<exists>f\<in>set (title job1 # company job1 # location job1 # tech_stack job1).
         sublist (ascii_lower ''acme'') (ascii_lower f)"
    by blast+
  with h1 h2 h3 scenario_a_acme show ?thesis by (intro conjI)
qed

text \<open>
  Scenario A with the query \<open>engineer acme\<close>: the only match runs from the end of
  the title into the company.
\<close>

lemma scenario_a_cross_field:
  "search_jobs ascii_lower [job1] (no_arguments\<lparr>arg_query := Some ''engineer acme''\<rparr>)
     = [Dumps (SearchResult 1 [job1])]
   \<and> \<not> sublist (ascii_lower ''engineer acme'') (ascii_lower (title job1))
   \<and> \<not> sublist (ascii_lower ''engineer acme'') (ascii_lower (company job1))
   \<and> \<not> sublist (ascii_lower ''engineer acme'') (ascii_lower (location job1))
   \<and> \<not> list_ex (\<lambda>t. sublist (ascii_lower ''engineer acme'') (ascii_lower t)) (tech_stack job1)
   \<and> \<not> sublist (ascii_lower ''engineer acme'') (ascii_lower (join '' '' (tech_stack job1)))"
  by code_simp

text \<open>
  C1 as stated fails: the record is returned for the non-empty query
  \<open>engineer acme\<close>, which is inside none of its title, company, location and
  technologies, nor inside the technologies joined by spaces. All texts are ASCII,
  where \<^verbatim>\<open>str.lower\<close> is \<open>ascii_lower\<close>.
\<close>

theorem search_query_single_field_counterexample:
  "''engineer acme'' \<noteq> []
   \<and> search_jobs ascii_lower [job1] (no_arguments\<lparr>arg_query := Some ''engineer acme''\<rparr>)
     = [Dumps (SearchResult 1 [job1])]
   \<and> job1 \<in> set [job1]
   \<and> \<not> sublist (ascii_lower ''engineer acme'') (ascii_lower (title job1))
   \<and> \<not> sublist (ascii_lower ''engineer acme'') (ascii_lower (company job1))
   \<and> \<not> sublist (ascii_lower ''engineer acme'') (ascii_lower (location job1))
   \<and> \<not> list_ex (\<lambda>t. sublist (ascii_lower ''engineer acme'') (ascii_lower t)) (tech_stack job1)
   \<and> \<not> sublist (ascii_lower ''engineer acme'') (ascii_lower (join '' '' (tech_stack job1)))"
  using scenario_a_cross_field by simp

subsection \<open>A match across two fields\<close>

text \<open>
  The loop reads \<open>lower\<close> only at the texts of the records it visits.
\<close>

lemma search_loop_agree:
  assumes "\<And>j. j \<in> set js \<Longrightarrow>
             searchable_text lower j = searchable_text lower' j
           \<and> lower (location j) = lower' (location j)
           \<and> lower (experience_level j) = lower' (experience_level j)"
  shows "search_loop lower q l r v e js acc = search_loop lower' q l r v e js acc"
  using assms
proof (induction js arbitrary: acc)
  case Nil
  show ?case by simp
next
  case (Cons a js)
  have h: "searchable_text lower a = searchable_text lower' a"
    "lower (location a) = lower' (location a)"
    "lower (experience_level a) = lower' (experience_level a)"
    using Cons.prems[of a] by simp_all
  have ih: "search_loop lower q l r v e js acc' = search_loop lower' q l r v e js acc'" for acc'
    by (rule Cons.IH) (simp add: Cons.prems)
  show ?case unfolding search_loop.simps h ih by (rule refl)
qed

text \<open>The texts of scenario A are ASCII.\<close>

lemma scenario_a_ascii:
  "is_ascii [] \<and> is_ascii ''engineer acme''
   \<and> is_ascii (title job1) \<and> is_ascii (company job1) \<and> is_ascii (location job1)
   \<and> is_ascii (experience_level job1)
   \<and> is_ascii ''Go'' \<and> is_ascii ''Postgres''
   \<and> is_ascii (title job1 @ '' '' @ company job1 @ '' '' @ location job1 @ '' '' @
        join '' '' (tech_stack job1))"
  by code_simp

lemma search_jobs_agree_scenario_a:
  assumes "\<And>s. is_ascii s \<Longrightarrow> lower s = ascii_lower s"
  shows "search_jobs lower [job1] (no_arguments\<lparr>arg_query := Some ''engineer acme''\<rparr>)
         = search_jobs ascii_lower [job1] (no_arguments\<lparr>arg_query := Some ''engineer acme''\<rparr>)"
proof -
  have e: "lower [] = ascii_lower []"
    and q: "lower ''engineer acme'' = ascii_lower ''engineer acme''"
    using scenario_a_ascii by (simp_all add: assms)
  have j: "searchable_text lower j = searchable_text ascii_lower j
           \<and> lower (location j) = ascii_lower (location j)
           \<and> lower (experience_level j) = ascii_lower (experience_level j)"
    if "j \<in> set [job1]" for j
  proof -
    from that have "j = job1" by simp
    then show ?thesis using scenario_a_ascii by (simp add: assms searchable_text_def)
  qed
  have a: "get_str (arg_query (no_arguments\<lparr>arg_query := Some ''engineer acme''\<rparr>))
             = ''engineer acme''"
    "get_str (arg_location (no_arguments\<lparr>arg_query := Some ''engineer acme''\<rparr>)) = []"
    "get_str (arg_experience_level (no_arguments\<lparr>arg_query := Some ''engineer acme''\<rparr>)) = []"
    by (simp_all add: get_str_def no_arguments_def)
  have s: "search_loop lower qq l r v x [job1] acc = search_loop ascii_lower qq l r v x [job1] acc"
    for qq l r v x acc
    by (rule search_loop_agree) (rule j)
  show ?thesis
    unfolding search_jobs_def Let_def a e q s by (rule refl)
qed

text \<open>
  C10. Let \<open>lower\<close> be \<open>ascii_lower\<close> on ASCII text, as \<^verbatim>\<open>str.lower\<close> is. There
  are a store and a non-empty query containing a space such that the search keeps a
  record although the query is inside none of the record's title, company,
  location and technologies: the match spans the boundary of two fields.
\<close>

theorem search_match_spans_fields:
  assumes "\<And>s. is_ascii s \<Longrightarrow> lower s = ascii_lower s"
  shows "\<exists>store q n js j.
     q \<noteq> [] \<and> CHR '' '' \<in> set q
     \<and> search_jobs lower store (no_arguments\<lparr>arg_query := Some q\<rparr>) = [Dumps (SearchResult n js)]
     \<and> j \<in> set js
     \<and> \<not> sublist (lower q) (lower (title j))
     \<and> \<not> sublist (lower q) (lower (company j))
     \<and> \<not> sublist (lower q) (lower (location j))
     \<and> \<not> list_ex (\<lambda>t. sublist (lower q) (lower t)) (tech_stack j)"
proof -
  have q: "lower ''engineer acme'' = ascii_lower ''engineer acme''"
    and f: "lower (title job1) = ascii_lower (title job1)"
      "lower (company job1) = ascii_lower (company job1)"
      "lower (location job1) = ascii_lower (location job1)"
    and g: "lower ''Go'' = ascii_lower ''Go''" "lower ''Postgres'' = ascii_lower ''Postgres''"
    using scenario_a_ascii by (simp_all add: assms)
  have ts: "list_ex (\<lambda>t. sublist (ascii_lower ''engineer acme'') (lower t)) (tech_stack job1)
      = list_ex (\<lambda>t. sublist (ascii_lower ''engineer acme'') (ascii_lower t)) (tech_stack job1)"
    by (simp add: job1_def g)
  have s: "search_jobs lower [job1] (no_arguments\<lparr>arg_query := Some ''engineer acme''\<rparr>)
         = [Dumps (SearchResult 1 [job1])]"
    using search_jobs_agree_scenario_a[OF assms] scenario_a_cross_field by simp
  have n: "\<not> sublist (lower ''engineer acme'') (lower (title job1))"
    "\<not> sublist (lower ''engineer acme'') (lower (company job1))"
    "\<not> sublist (lower ''engineer acme'') (lower (location job1))"
    "\<not> list_ex (\<lambda>t. sublist (lower ''engineer acme'') (lower t)) (tech_stack job1)"
    unfolding q f ts using scenario_a_cross_field by simp_all
  have "''engineer acme'' \<noteq> [] \<and> CHR '' '' \<in> set ''engineer acme''
     \<and> search_jobs lower [job1] (no_arguments\<lparr>arg_query := Some ''engineer acme''\<rparr>)
         = [Dumps (SearchResult 1 [job1])]
     \<and> job1 \<in> set [job1]
     \<and> \<not> sublist (lower ''engineer acme'') (lower (title job1))
     \<and> \<not> sublist (lower ''engineer acme'') (lower (company job1))
     \<and> \<not> sublist (lower ''engineer acme'') (lower (location job1))
     \<and> \<not> list_ex (\<lambda>t. sublist (lower ''engineer acme'') (lower t)) (tech_stack job1)"
    using s n by simp
  then show ?thesis by (intro exI)
qed

theorem search_match_spans_fields_witness:
  "\<exists>store q n js j.
     q \<noteq> [] \<and> CHR '' '' \<in> set q
     \<and> search_jobs ascii_lower store (no_arguments\<lparr>arg_query := Some q\<rparr>)
         = [Dumps (SearchResult n js)]
     \<and> j \<in> set js
     \<and> \<not> sublist (ascii_lower q) (ascii_lower (title j))
     \<and> \<not> sublist (ascii_lower q) (ascii_lower (company j))
     \<and> \<not> sublist (ascii_lower q) (ascii_lower (location j))
     \<and> \<not> list_ex (\<lambda>t. sublist (ascii_lower q) (ascii_lower t)) (tech_stack j)"
  by (rule search_match_spans_fields[of ascii_lower]) (rule refl)

section \<open>Properties of the lookup\<close>

lemma find_Some_split:
  "find P xs = Some x \<longleftrightarrow> (\<exists>pre post. xs = pre @ x # post \<and> P x \<and> (\<forall>k\<in>set pre. \<not> P k))"
proof (induction xs)
  case Nil
  show ?case by simp
next
  case (Cons a xs)
  show ?case
  proof (cases "P a")
    case True
    have "(\<exists>pre post. a # xs = pre @ x # post \<and> P x \<and> (\<forall>k\<in>set pre. \<not> P k)) \<longleftrightarrow> a = x"
    proof
      assume "\<exists>pre post. a # xs = pre @ x # post \<and> P x \<and> (\<forall>k\<in>set pre. \<not> P k)"
      then obtain pre post where h: "a # xs = pre @ x # post" "\<forall>k\<in>set pre. \<not> P k" by blast
      show "a = x"
      proof (cases pre)
        case Nil
        with h show ?thesis by simp
      next
        case (Cons b pre')
        with h True show ?thesis by simp
      qed
    next
      assume "a = x"
      with True have "a # xs = [] @ x # xs \<and> P x \<and> (\<forall>k\<in>set []. \<not> P k)" by simp
      then show "\<exists>pre post. a # xs = pre @ x # post \<and> P x \<and> (\<forall>k\<in>set pre. \<not> P k)" by blast
    qed
    with True show ?thesis by simp
  next
    case False
    have "(\<exists>pre post. a # xs = pre @ x # post \<and> P x \<and> (\<forall>k\<in>set pre. \<not> P k))
          \<longleftrightarrow> (\<exists>pre post. xs = pre @ x # post \<and> P x \<and> (\<forall>k\<in>set pre. \<not> P k))"
    proof
      assume "\<exists>pre post. a # xs = pre @ x # post \<and> P x \<and> (\<forall>k\<in>set pre. \<not> P k)"
      then obtain pre post where h: "a # xs = pre @ x # post" "P x" "\<forall>k\<in>set pre. \<not> P k" by blast
      show "\<exists>pre post. xs = pre @ x # post \<and> P x \<and> (\<forall>k\<in>set pre. \<not> P k)"
      proof (cases pre)
        case Nil
        with h False show ?thesis by simp
      next
        case (Cons b pre')
        with h have "xs = pre' @ x # post \<and> P x \<and> (\<forall>k\<in>set pre'. \<not> P k)" by simp
        then show ?thesis by blast
      qed
    next
      assume "\<exists>pre post. xs = pre @ x # post \<and> P x \<and> (\<forall>k\<in>set pre. \<not> P k)"
      then obtain pre post where h: "xs = pre @ x # post" "P x" "\<forall>k\<in>set pre. \<not> P k" by blast
      with False have "a # xs = (a # pre) @ x # post \<and> P x \<and> (\<forall>k\<in>set (a # pre). \<not> P k)" by simp
      then show "\<exists>pre post. a # xs = pre @ x # post \<and> P x \<and> (\<forall>k\<in>set pre. \<not> P k)" by blast
    qed
    with False Cons.IH show ?thesis by simp
  qed
qed

lemma get_job_details_nonempty:
  assumes "arg_job_id args = Some jid" and "jid \<noteq> []"
  shows "get_job_details store args =
           (case find (\<lambda>j. job_id j = jid) store of
              None \<Rightarrow> Inr [Literal (not_found_text jid)]
            | Some j \<Rightarrow> Inr [Dumps (JobDetails j)])"
  using assms by (simp add: get_job_details_def)

text \<open>
  C3, as amended. For a non-empty id, the lookup returns a record exactly when that
  record is the first one in store order whose id equals the given string
  character for character; it returns the not-found message, a text content and not
  an exception, exactly when no record has that id; and it never raises.
\<close>

theorem get_job_details_first_match:
  assumes "arg_job_id args = Some jid" and "jid \<noteq> []"
  shows "(\<forall>j. get_job_details store args = Inr [Dumps (JobDetails j)] \<longleftrightarrow>
            (\<exists>pre post. store = pre @ j # post \<and> job_id j = jid \<and>
                         (\<forall>k\<in>set pre. job_id k \<noteq> jid)))
       \<and> (get_job_details store args = Inr [Literal (not_found_text jid)] \<longleftrightarrow>
            (\<forall>k\<in>set store. job_id k \<noteq> jid))
       \<and> (\<forall>e. get_job_details store args \<noteq> Inl e)"
proof (intro conjI allI)
  fix j
  show "get_job_details store args = Inr [Dumps (JobDetails j)] \<longleftrightarrow>
            (\<exists>pre post. store = pre @ j # post \<and> job_id j = jid \<and>
                         (\<forall>k\<in>set pre. job_id k \<noteq> jid))"
    unfolding get_job_details_nonempty[OF assms]
      find_Some_split[of "\<lambda>j. job_id j = jid" store j, symmetric]
    by (simp split: option.splits)
next
  show "get_job_details store args = Inr [Literal (not_found_text jid)] \<longleftrightarrow>
            (\<forall>k\<in>set store. job_id k \<noteq> jid)"
  proof (cases "find (\<lambda>j. job_id j = jid) store")
    case None
    then have "\<forall>k\<in>set store. job_id k \<noteq> jid" by (simp add: find_None_iff)
    with None show ?thesis by (simp add: get_job_details_nonempty[OF assms])
  next
    case (Some x)
    then obtain pre post where "store = pre @ x # post" "job_id x = jid"
      unfolding find_Some_split by blast
    then have "\<exists>k\<in>set store. job_id k = jid" by auto
    with Some show ?thesis by (simp add: get_job_details_nonempty[OF assms])
  qed
next
  fix e
  show "get_job_details store args \<noteq> Inl e"
    unfolding get_job_details_nonempty[OF assms]
    by (simp split: option.splits)
qed

text \<open>
  The store of two postings: the id \<open>job-1\<close> finds the second posting, the id
  \<open>JOB-1\<close> finds nothing.
\<close>

lemma scenario_c_lookup:
  "get_job_details [job1, job2] (no_arguments\<lparr>arg_job_id := Some ''job-1''\<rparr>)
     = Inr [Dumps (JobDetails job2)]
   \<and> get_job_details [job1, job2] (no_arguments\<lparr>arg_job_id := Some ''JOB-1''\<rparr>)
     = Inr [Literal (not_found_text ''JOB-1'')]"
  by code_simp

theorem get_job_details_first_match_witness:
  "(\<exists>pre post. [job1, job2] = pre @ job2 # post \<and> job_id job2 = ''job-1'' \<and>
        list_all (\<lambda>k. job_id k \<noteq> ''job-1'') pre)
   \<and> get_job_details [job1, job2] (no_arguments\<lparr>arg_job_id := Some ''JOB-1''\<rparr>)
        = Inr [Literal (not_found_text ''JOB-1'')]
   \<and> list_all (\<lambda>k. job_id k \<noteq> ''JOB-1'') [job1, job2]"
proof -
  have a: "arg_job_id (no_arguments\<lparr>arg_job_id := Some ''job-1''\<rparr>) = Some ''job-1''" by simp
  have b: "''job-1'' \<noteq> []" by simp
  have c: "arg_job_id (no_arguments\<lparr>arg_job_id := Some ''JOB-1''\<rparr>) = Some ''JOB-1''" by simp
  have d: "''JOB-1'' \<noteq> []" by simp
  from get_job_details_first_match[OF a b, of "[job1, job2]"] scenario_c_lookup
  have "\<exists>pre post. [job1, job2] = pre @ job2 # post \<and> job_id job2 = ''job-1'' \<and>
        (\<forall>k\<in>set pre. job_id k \<noteq> ''job-1'')" by blast
  moreover from get_job_details_first_match[OF c d, of "[job1, job2]"] scenario_c_lookup
  have "\<forall>k\<in>set [job1, job2]. job_id k \<noteq> ''JOB-1''" by blast
  ultimately show ?thesis using scenario_c_lookup by (simp add: list_all_iff)
qed

text \<open>
  C3 as stated fails at the empty id: no record of the store has the empty id, and
  the lookup raises \<open>ValueError\<close> instead of giving the not-found outcome.
\<close>

theorem get_job_details_empty_id_counterexample:
  "job_id job1 \<noteq> []
   \<and> get_job_details [job1] (no_arguments\<lparr>arg_job_id := Some []\<rparr>)
       = Inl (ValueError ''job_id is required'')"
  by (simp add: get_job_details_def job1_def)

section \<open>Properties of the load\<close>

lemma load_populated: "jobs_data s \<noteq> [] \<Longrightarrow> load_jobs_data outcome s = (None, s)"
  by (simp add: load_jobs_data_def)

lemma load_empty:
  "jobs_data s = [] \<Longrightarrow>
   load_jobs_data outcome s =
     (case outcome of
        NoResponse \<Rightarrow> (Some RequestException, s\<lparr>fetch_count := fetch_count s + 1\<rparr>)
      | Response status_code body \<Rightarrow>
          (if 400 \<le> status_code \<and> status_code < 600
           then (Some (HTTPError status_code), s\<lparr>fetch_count := fetch_count s + 1\<rparr>)
           else
             (case body of
                InvalidJson \<Rightarrow> (Some JSONDecodeError, s\<lparr>fetch_count := fetch_count s + 1\<rparr>)
              | NonObject \<Rightarrow> (Some AttributeError, s\<lparr>fetch_count := fetch_count s + 1\<rparr>)
              | Object v \<Rightarrow>
                  (None, s\<lparr>fetch_count := fetch_count s + 1,
                           jobs_data := (case v of None \<Rightarrow> [] | Some js \<Rightarrow> js)\<rparr>))))"
  by (auto simp add: load_jobs_data_def raise_for_status_def Let_def
      split: fetch_outcome.splits json_body.splits)

lemma load_empty_count:
  "jobs_data s = [] \<Longrightarrow> fetch_count (snd (load_jobs_data outcome s)) = fetch_count s + 1"
  by (auto simp add: load_empty split: fetch_outcome.splits json_body.splits)

text \<open>
  C4, as amended. On an empty store the load raises to its caller, and leaves the
  store empty, when the request raises, when the status code is from 400 to 599,
  when the body is not JSON and when the JSON is not an object. A JSON object
  without the key \<open>jobs\<close> is no failure: the load returns normally and the store
  is empty. With the key, the store holds its value.
\<close>

theorem load_failures:
  assumes "jobs_data s = []"
  shows "load_jobs_data NoResponse s
           = (Some RequestException, s\<lparr>fetch_count := fetch_count s + 1\<rparr>)
       \<and> (400 \<le> code \<and> code < 600 \<longrightarrow>
            load_jobs_data (Response code body) s
              = (Some (HTTPError code), s\<lparr>fetch_count := fetch_count s + 1\<rparr>))
       \<and> (\<not> (400 \<le> code \<and> code < 600) \<longrightarrow>
            load_jobs_data (Response code InvalidJson) s
              = (Some JSONDecodeError, s\<lparr>fetch_count := fetch_count s + 1\<rparr>)
          \<and> load_jobs_data (Response code NonObject) s
              = (Some AttributeError, s\<lparr>fetch_count := fetch_count s + 1\<rparr>)
          \<and> load_jobs_data (Response code (Object None)) s
              = (None, s\<lparr>fetch_count := fetch_count s + 1\<rparr>)
          \<and> load_jobs_data (Response code (Object (Some js))) s
              = (None, s\<lparr>fetch_count := fetch_count s + 1, jobs_data := js\<rparr>))"
  using assms by (simp add: load_empty)

theorem load_failures_witness:
  "jobs_data new_server = []
   \<and> load_jobs_data NoResponse new_server = (Some RequestException, \<lparr>jobs_data = [], fetch_count = 1\<rparr>)
   \<and> load_jobs_data (Response 404 NonObject) new_server
        = (Some (HTTPError 404), \<lparr>jobs_data = [], fetch_count = 1\<rparr>)
   \<and> load_jobs_data (Response 200 InvalidJson) new_server
        = (Some JSONDecodeError, \<lparr>jobs_data = [], fetch_count = 1\<rparr>)
   \<and> load_jobs_data (Response 200 NonObject) new_server
        = (Some AttributeError, \<lparr>jobs_data = [], fetch_count = 1\<rparr>)
   \<and> load_jobs_data (Response 200 (Object (Some [job1]))) new_server
        = (None, \<lparr>jobs_data = [job1], fetch_count = 1\<rparr>)"
proof -
  have e: "jobs_data new_server = []" by (simp add: new_server_def)
  show ?thesis
    using e load_failures[OF e, of 404 NonObject "[job1]"] load_failures[OF e, of 200 NonObject "[job1]"]
    by (simp add: new_server_def)
qed

text \<open>
  C4 as stated fails: a response with status 200 whose body is a JSON object
  without the key \<open>jobs\<close> does not have the expected shape, yet the load returns
  normally with an empty store.
\<close>

theorem load_missing_jobs_key_counterexample:
  "load_jobs_data (Response 200 (Object None)) new_server
     = (None, \<lparr>jobs_data = [], fetch_count = 1\<rparr>)"
  by (simp add: load_jobs_data_def raise_for_status_def new_server_def)

text \<open>
  C5. On a populated store the load returns normally and leaves the whole state as
  it is, whatever the remote source would answer: no fetch is made. If that state
  came out of a first load on a new server, the fetch count is 1 and stays 1, and
  the second load gives what the first one gave.
\<close>

theorem load_idempotent:
  assumes "jobs_data s \<noteq> []"
  shows "load_jobs_data outcome s = (None, s)
       \<and> (load_jobs_data first new_server = (None, s) \<longrightarrow>
            fetch_count s = 1
          \<and> load_jobs_data outcome (snd (load_jobs_data first new_server))
              = load_jobs_data first new_server)"
proof -
  have a: "load_jobs_data outcome s = (None, s)" by (rule load_populated[OF assms])
  have "fetch_count s = 1" if h: "load_jobs_data first new_server = (None, s)"
  proof -
    have "jobs_data new_server = []" by (simp add: new_server_def)
    from h[unfolded load_empty[OF this]] show ?thesis
      by (auto simp: new_server_def split: fetch_outcome.splits json_body.splits if_splits)
  qed
  with a show ?thesis by simp
qed

theorem load_idempotent_witness:
  "jobs_data \<lparr>jobs_data = [job1], fetch_count = 1\<rparr> \<noteq> []
   \<and> load_jobs_data (Response 200 (Object (Some [job1]))) new_server
        = (None, \<lparr>jobs_data = [job1], fetch_count = 1\<rparr>)
   \<and> load_jobs_data (Response 200 (Object (Some [job2])))
        \<lparr>jobs_data = [job1], fetch_count = 1\<rparr>
        = (None, \<lparr>jobs_data = [job1], fetch_count = 1\<rparr>)
   \<and> load_jobs_data NoResponse \<lparr>jobs_data = [job1], fetch_count = 1\<rparr>
        = (None, \<lparr>jobs_data = [job1], fetch_count = 1\<rparr>)"
proof -
  have p: "jobs_data \<lparr>jobs_data = [job1], fetch_count = 1\<rparr> \<noteq> []" by simp
  have f: "load_jobs_data (Response 200 (Object (Some [job1]))) new_server
        = (None, \<lparr>jobs_data = [job1], fetch_count = 1\<rparr>)"
    by (simp add: load_jobs_data_def raise_for_status_def new_server_def)
  show ?thesis
    using p f load_idempotent[OF p, of "Response 200 (Object (Some [job2]))"]
      load_idempotent[OF p, of NoResponse]
    by simp
qed

text \<open>
  C7. On an empty store, a response with status 500 makes the load raise
  \<open>HTTPError\<close>; the store is unchanged, so still empty; the next load fetches
  again, whatever the answer, and a good answer then fills the store.
\<close>

theorem load_500_then_retry:
  assumes "jobs_data s = []"
  shows "load_jobs_data (Response 500 body) s
           = (Some (HTTPError 500), s\<lparr>fetch_count := fetch_count s + 1\<rparr>)
       \<and> jobs_data (snd (load_jobs_data (Response 500 body) s)) = jobs_data s
       \<and> fetch_count (snd (load_jobs_data again (snd (load_jobs_data (Response 500 body) s))))
           = fetch_count s + 2
       \<and> load_jobs_data (Response 200 (Object (Some js))) (snd (load_jobs_data (Response 500 body) s))
           = (None, s\<lparr>fetch_count := fetch_count s + 2, jobs_data := js\<rparr>)"
proof -
  let ?s1 = "s\<lparr>fetch_count := fetch_count s + 1\<rparr>"
  have a: "load_jobs_data (Response 500 body) s = (Some (HTTPError 500), ?s1)"
    using assms by (simp add: load_empty)
  have e1: "jobs_data ?s1 = []" using assms by simp
  have b: "fetch_count (snd (load_jobs_data again ?s1)) = fetch_count s + 2"
    using load_empty_count[OF e1, of again] by simp
  have c: "load_jobs_data (Response 200 (Object (Some js))) ?s1
           = (None, s\<lparr>fetch_count := fetch_count s + 2, jobs_data := js\<rparr>)"
    using load_empty[OF e1, of "Response 200 (Object (Some js))"] by simp
  show ?thesis using a b c assms by simp
qed

theorem load_500_then_retry_witness:
  "jobs_data new_server = []
   \<and> load_jobs_data (Response 500 InvalidJson) new_server
        = (Some (HTTPError 500), \<lparr>jobs_data = [], fetch_count = 1\<rparr>)
   \<and> load_jobs_data (Response 200 (Object (Some [job1]))) \<lparr>jobs_data = [], fetch_count = 1\<rparr>
        = (None, \<lparr>jobs_data = [job1], fetch_count = 2\<rparr>)"
proof -
  have e: "jobs_data new_server = []" by (simp add: new_server_def)
  show ?thesis
    using e load_500_then_retry[OF e, of InvalidJson NoResponse "[job1]"]
    by (simp add: new_server_def load_jobs_data_def raise_for_status_def)
qed

section \<open>Properties of the dispatcher\<close>

lemma get_job_details_missing_id:
  "arg_job_id a = None \<or> arg_job_id a = Some [] \<Longrightarrow>
   get_job_details store a = Inl (ValueError ''job_id is required'')"
  by (auto simp add: get_job_details_def)

text \<open>
  C8, as amended. With the id absent or empty, the lookup itself raises
  \<open>ValueError\<close> whatever the store holds: the check comes before the store is read.
  Through the tool dispatcher the load runs first: an exception of the load is what
  the caller gets, and otherwise the caller gets the \<open>ValueError\<close>, in the state
  the load has left.
\<close>

theorem missing_id_rejected:
  assumes "arg_job_id a = None \<or> arg_job_id a = Some []"
  shows "get_job_details store a = Inl (ValueError ''job_id is required'')
       \<and> handle_call_tool lower outcome ''get_job_details'' (Some a) s =
           (case load_jobs_data outcome s of
              (Some e, s') \<Rightarrow> (Inl e, s')
            | (None, s') \<Rightarrow> (Inl (ValueError ''job_id is required''), s'))
       \<and> handle_call_tool lower outcome ''get_job_details'' None s =
           (case load_jobs_data outcome s of
              (Some e, s') \<Rightarrow> (Inl e, s')
            | (None, s') \<Rightarrow> (Inl (ValueError ''job_id is required''), s'))"
proof -
  have n: "arg_job_id no_arguments = None \<or> arg_job_id no_arguments = Some []"
    by (simp add: no_arguments_def)
  show ?thesis
    by (simp add: handle_call_tool_def get_job_details_missing_id[OF assms]
        get_job_details_missing_id[OF n] split: prod.splits option.splits)
qed

theorem missing_id_rejected_witness:
  "get_job_details [job1] (no_arguments\<lparr>arg_job_id := Some []\<rparr>)
     = Inl (ValueError ''job_id is required'')
   \<and> handle_call_tool ascii_lower NoResponse ''get_job_details'' (Some (no_arguments\<lparr>arg_job_id := Some []\<rparr>))
       \<lparr>jobs_data = [job1], fetch_count = 1\<rparr>
     = (Inl (ValueError ''job_id is required''), \<lparr>jobs_data = [job1], fetch_count = 1\<rparr>)"
proof -
  have a: "arg_job_id (no_arguments\<lparr>arg_job_id := Some []\<rparr>) = None
           \<or> arg_job_id (no_arguments\<lparr>arg_job_id := Some []\<rparr>) = Some []" by simp
  show ?thesis
    using missing_id_rejected[OF a, of "[job1]" ascii_lower NoResponse "\<lparr>jobs_data = [job1], fetch_count = 1\<rparr>"]
    by (simp add: load_jobs_data_def)
qed

text \<open>
  C8 as stated fails for a lookup call without id on a new server. When the remote
  source does not answer, the call fails with the exception of the request, not
  with \<open>ValueError\<close>, and a fetch has been made. When it answers, the store has
  been loaded by the time \<open>ValueError\<close> is raised.
\<close>

theorem missing_id_after_load_counterexample:
  "handle_call_tool ascii_lower NoResponse ''get_job_details'' None new_server
     = (Inl RequestException, \<lparr>jobs_data = [], fetch_count = 1\<rparr>)
   \<and> handle_call_tool ascii_lower (Response 200 (Object (Some [job1]))) ''get_job_details'' None new_server
     = (Inl (ValueError ''job_id is required''), \<lparr>jobs_data = [job1], fetch_count = 1\<rparr>)"
  by (simp add: handle_call_tool_def load_jobs_data_def raise_for_status_def new_server_def
      get_job_details_def no_arguments_def)

section \<open>Properties of the HTTP adapter\<close>

text \<open>
  The not-found message begins with the letter J, which begins no JSON value.
\<close>

lemma json_loads_not_found: "json_loads decoder (Literal (not_found_text jid)) = Inl JSONDecodeError"
  by (simp add: json_loads_def not_found_text_def json_whitespace_def json_value_start_def)

text \<open>
  C9, on the code. On the loaded store of scenario C the lookup endpoint answers the
  id \<open>99\<close> with status 500, because decoding the not-found message fails; the id
  \<open>1\<close> gives the posting. Whatever the store and the id, the endpoint either
  returns a dictionary or raises with status 500: a miss and a failure of the engine
  have the same status.
\<close>

theorem get_job_miss_is_500:
  "get_job decoder [job1] ''99'' = HTTPException 500 JSONDecodeError
   \<and> get_job decoder [job1] ''1'' = Returned (JobDetails job1)
   \<and> ((\<exists>p. get_job decoder store jid = Returned p)
        \<or> (\<exists>e. get_job decoder store jid = HTTPException 500 e))"
proof -
  have a: "get_job decoder [job1] ''99'' = HTTPException 500 JSONDecodeError"
    by (simp add: get_job_def get_job_details_def job1_def json_loads_not_found)
  have b: "get_job decoder [job1] ''1'' = Returned (JobDetails job1)"
    by (simp add: get_job_def get_job_details_def job1_def json_loads_def)
  have c: "(\<exists>p. get_job decoder store jid = Returned p)
        \<or> (\<exists>e. get_job decoder store jid = HTTPException 500 e)"
    by (auto simp add: get_job_def split: sum.splits list.splits)
  from a b c show ?thesis by simp
qed

text \<open>
  Every miss with a non-empty id ends in status 500.
\<close>

lemma get_job_miss:
  assumes "jid \<noteq> []" and "\<forall>k\<in>set store. job_id k \<noteq> jid"
  shows "get_job decoder store jid = HTTPException 500 JSONDecodeError"
proof -
  from assms(2) have "find (\<lambda>j. job_id j = jid) store = None"
    by (simp add: find_None_iff)
  with assms(1) show ?thesis
    by (simp add: get_job_def get_job_details_def json_loads_not_found)
qed

section \<open>Properties of the distinct values\<close>

lemma count_list_distinct: "distinct xs \<Longrightarrow> x \<in> set xs \<Longrightarrow> count_list xs x = 1"
  by (induction xs) auto

lemma fold_tech_union:
  "fold (\<lambda>j acc. acc \<union> set (tech_stack j)) js A = A \<union> (\<Union>j\<in>set js. set (tech_stack j))"
  by (induction js arbitrary: A) auto

lemma all_techs_concat:
  "fold (\<lambda>j acc. acc \<union> set (tech_stack j)) js {} = set (concat (map tech_stack js))"
  by (simp add: fold_tech_union)

text \<open>
  C6. The companies and the technologies come back as lists that are sorted
  ascending and free of duplicates, that hold exactly the companies, respectively
  the technologies, of the store, and whose lengths are the reported totals. Every
  technology of every record occurs exactly once.
\<close>

theorem distinct_values_sorted:
  "\<exists>cs ts.
      get_companies store = [Dumps (Companies (length cs) cs)]
    \<and> sorted cs \<and> distinct cs \<and> set cs = company ` set store
    \<and> get_tech_stacks store = [Dumps (Technologies (length ts) ts)]
    \<and> sorted ts \<and> distinct ts \<and> set ts = (\<Union>j\<in>set store. set (tech_stack j))
    \<and> (\<forall>j\<in>set store. \<forall>t\<in>set (tech_stack j). count_list ts t = 1)"
proof -
  let ?cs = "sorted_list_of_set (set (map company store))"
  let ?ts = "sorted_list_of_set (set (concat (map tech_stack store)))"
  have c: "get_companies store = [Dumps (Companies (length ?cs) ?cs)]"
    by (simp add: get_companies_def Let_def)
  have t: "get_tech_stacks store = [Dumps (Technologies (length ?ts) ?ts)]"
    unfolding get_tech_stacks_def Let_def all_techs_concat by simp
  have cp: "sorted ?cs" "distinct ?cs" "set ?cs = company ` set store"
    by simp_all
  have tp: "sorted ?ts" "distinct ?ts" "set ?ts = (\<Union>j\<in>set store. set (tech_stack j))"
    by simp_all
  have "\<forall>j\<in>set store. \<forall>t\<in>set (tech_stack j). count_list ?ts t = 1"
  proof (intro ballI)
    fix j t
    assume "j \<in> set store" and "t \<in> set (tech_stack j)"
    then have "t \<in> set ?ts" unfolding tp(3) by blast
    with tp(2) show "count_list ?ts t = 1" by (rule count_list_distinct)
  qed
  with c t cp tp show ?thesis by blast
qed

text \<open>
  Scenario D: two postings that share \<open>Go\<close>.
\<close>

lemma scenario_d_values:
  "get_companies [job1, job2] = [Dumps (Companies 2 [''Acme'', ''Globex''])]
   \<and> get_tech_stacks [job1, job2] = [Dumps (Technologies 3 [''Go'', ''Postgres'', ''TypeScript''])]"
  by code_simp

theorem distinct_values_sorted_witness:
  "(\<exists>cs ts.
      get_companies [job1, job2] = [Dumps (Companies (length cs) cs)]
    \<and> sorted cs \<and> distinct cs
    \<and> get_tech_stacks [job1, job2] = [Dumps (Technologies (length ts) ts)]
    \<and> sorted ts \<and> distinct ts
    \<and> count_list ts ''Go'' = 1)
   \<and> ''Go'' \<in> set (tech_stack job1) \<and> ''Go'' \<in> set (tech_stack job2)
   \<and> get_companies [job1, job2] = [Dumps (Companies 2 [''Acme'', ''Globex''])]
   \<and> get_tech_stacks [job1, job2]
       = [Dumps (Technologies 3 [''Go'', ''Postgres'', ''TypeScript''])]"
proof -
  have g: "''Go'' \<in> set (tech_stack job1)" "''Go'' \<in> set (tech_stack job2)"
    by (simp_all add: job1_def job2_def)
  have m: "job1 \<in> set [job1, job2]" by simp
  have "\<exists>cs ts.
      get_companies [job1, job2] = [Dumps (Companies (length cs) cs)]
    \<and> sorted cs \<and> distinct cs
    \<and> get_tech_stacks [job1, job2] = [Dumps (Technologies (length ts) ts)]
    \<and> sorted ts \<and> distinct ts
    \<and> count_list ts ''Go'' = 1"
    using distinct_values_sorted[of "[job1, job2]"]
  proof (elim exE conjE)
    fix cs ts
    assume h: "get_companies [job1, job2] = [Dumps (Companies (length cs) cs)]"
      "sorted cs" "distinct cs"
      "get_tech_stacks [job1, job2] = [Dumps (Technologies (length ts) ts)]"
      "sorted ts" "distinct ts"
      and k: "\<forall>j\<in>set [job1, job2]. \<forall>t\<in>set (tech_stack j). count_list ts t = 1"
    from k m have "\<forall>t\<in>set (tech_stack job1). count_list ts t = 1" by (rule bspec)
    then have "count_list ts ''Go'' = 1" using g(1) by (rule bspec)
    with h show ?thesis by (intro exI[of _ cs] exI[of _ ts] conjI)
  qed
  moreover note g scenario_d_values[THEN conjunct1] scenario_d_values[THEN conjunct2]
  ultimately show ?thesis by (intro conjI)
qed

end
